theory Spec2Isabelle
  imports Complex_Main
begin

section \<open>Edges of gustaf (src/gustaf/edges.py): data model\<close>

text \<open>
  The Python exceptions the operations of \<^verbatim>\<open>edges.py\<close> can end in, and
  \<open>ShapeError\<close> of the specification's error taxonomy (no statement of
  \<^verbatim>\<open>edges.py\<close> raises it). A call that may raise returns \<open>error + 'a\<close>,
  \<open>Inl\<close> being the exception.
\<close>

datatype error =
    TypeError
  | AttributeError
  | IndexError
  | ValueError
  | NotImplementedError
  | ShapeError

definition on_ok :: "error + 'a \<Rightarrow> ('a \<Rightarrow> error + 'b) \<Rightarrow> error + 'b" where
  "on_ok r f = (case r of Inl e \<Rightarrow> Inl e | Inr x \<Rightarrow> f x)"

text \<open>
  An object of class \<^verbatim>\<open>Edges\<close>. The point type \<open>'p\<close> is a row of the
  vertex array. A two-dimensional integer array is the list of its rows. An attribute
  that has not been assigned yet is \<open>None\<close>; reading it raises AttributeError.
  \<open>priv_edges\<close> and \<open>priv_const_edges\<close> are the attributes
  \<^verbatim>\<open>_edges\<close> and \<^verbatim>\<open>_const_edges\<close>; \<open>kind\<close> is the class
  attribute (\<^verbatim>\<open>"edge"\<close> in \<^verbatim>\<open>Edges\<close>, overridden in subclasses).
  The remaining fields are the attributes that \<^verbatim>\<open>sorted_edges\<close> and
  \<^verbatim>\<open>get_edges_unique\<close> assign. Every assignment to an attribute that
  \<^verbatim>\<open>edges.py\<close> makes is taken to succeed: whether an instance accepts
  attributes beside its \<^verbatim>\<open>__slots__\<close> is decided by the base class
  \<^verbatim>\<open>Vertices\<close>, which is not in \<^verbatim>\<open>src/\<close>. Indices are
  unbounded integers; the conversion to \<^verbatim>\<open>settings.INT_DTYPE\<close> and the
  calls of the logger \<^verbatim>\<open>_logd\<close> are not modelled. The decorator
  \<^verbatim>\<open>depends_on\<close> caches a computed value until the arrays it depends on
  change; a decorated method is modelled by the value it computes.
\<close>

record 'p Edges =
  kind :: string
  vertices :: "'p list"
  priv_edges :: "int list list option"
  priv_const_edges :: "int list list option"
  edges_sorted :: "int list list option"
  edges_unique_id :: "int list option"
  edges_unique :: "int list list option"
  edges_unique_inverse :: "int list option"
  edges_unique_count :: "int list option"
  outlines :: "int list option"

text \<open>
  Modelled from the spec: \<^verbatim>\<open>helpers.data.make_tracked_array\<close> is not in
  \<^verbatim>\<open>src/\<close>. Section 4.1 of the specification gives the wrapper transparent
  read access to the buffer it wraps, a modified flag and a read-only alias, and no check
  of the buffer's shape: the tracked array holds the rows it was given.
\<close>

definition make_tracked_array :: "int list list \<Rightarrow> error + int list list" where
  "make_tracked_array es = Inr es"

text \<open>
  Modelled from the spec: the class of the tracked array is not in \<^verbatim>\<open>src/\<close>.
  The specification describes a numeric array wrapper with reads, writes and a read-only
  alias and gives it no call operation, so invoking a tracked array as a function raises
  TypeError, as for every array.
\<close>

definition tracked_array_call :: "int list list \<Rightarrow> error + 'a" where
  "tracked_array_call a = Inl TypeError"

subsection \<open>Properties and constructor\<close>

text \<open>The property \<^verbatim>\<open>edges\<close> (lines 45-59) returns \<^verbatim>\<open>self._edges\<close>.\<close>

definition edges :: "'p Edges \<Rightarrow> error + int list list" where
  "edges self = (case priv_edges self of None \<Rightarrow> Inl AttributeError | Some es \<Rightarrow> Inr es)"

text \<open>
  The setter of \<^verbatim>\<open>edges\<close> (lines 61-81): the tracked array made from the
  argument is stored, and a non-writeable view of the same array beside it.
\<close>

definition edges_setter :: "'p Edges \<Rightarrow> int list list \<Rightarrow> error + 'p Edges" where
  "edges_setter self es =
     on_ok (make_tracked_array es)
       (\<lambda>a. Inr (self\<lparr>priv_edges := Some a, priv_const_edges := Some a\<rparr>))"

text \<open>
  The properties \<^verbatim>\<open>elements\<close> and \<^verbatim>\<open>const_elements\<close> (lines 83-145)
  look up the attribute named after the lower-cased class name; for an object of class
  \<^verbatim>\<open>Edges\<close> these are \<^verbatim>\<open>edges\<close> and \<^verbatim>\<open>const_edges\<close>. The
  getter of \<^verbatim>\<open>const_edges\<close> belongs to the parts of the class that are not in
  \<^verbatim>\<open>edges.py\<close>; it reads \<^verbatim>\<open>_const_edges\<close>.
\<close>

definition elements :: "'p Edges \<Rightarrow> error + int list list" where
  "elements self = edges self"

definition elements_setter :: "'p Edges \<Rightarrow> int list list \<Rightarrow> error + 'p Edges" where
  "elements_setter self elems = edges_setter self elems"

definition const_elements :: "'p Edges \<Rightarrow> error + int list list" where
  "const_elements self =
     (case priv_const_edges self of None \<Rightarrow> Inl AttributeError | Some es \<Rightarrow> Inr es)"

text \<open>
  \<^verbatim>\<open>Edges.__init__\<close> (lines 23-43). The constructor of the base class
  \<^verbatim>\<open>Vertices\<close> stores the point array; then \<^verbatim>\<open>edges\<close> is assigned
  from the argument \<^verbatim>\<open>edges\<close> if it is not None, else from
  \<^verbatim>\<open>elements\<close> if that is not None.
\<close>

definition new_Edges :: "'p list \<Rightarrow> 'p Edges" where
  "new_Edges vs =
     \<lparr>kind = ''edge'', vertices = vs, priv_edges = None, priv_const_edges = None,
      edges_sorted = None, edges_unique_id = None, edges_unique = None,
      edges_unique_inverse = None, edges_unique_count = None, outlines = None\<rparr>"

definition Edges_init ::
  "'p list \<Rightarrow> int list list option \<Rightarrow> int list list option \<Rightarrow> error + 'p Edges" where
  "Edges_init vs edges_arg elements_arg =
     (case edges_arg of
        Some es \<Rightarrow> edges_setter (new_Edges vs) es
      | None \<Rightarrow>
          (case elements_arg of
             Some els \<Rightarrow> edges_setter (new_Edges vs) els
           | None \<Rightarrow> Inr (new_Edges vs)))"

subsection \<open>subdivide\<close>

text \<open>
  \<^verbatim>\<open>subdivide\<close> (lines 340-370). The refinement kernels of
  \<^verbatim>\<open>utils.connec\<close>, \<^verbatim>\<open>get_whatami\<close> and the face classes are not in
  \<^verbatim>\<open>edges.py\<close>: \<open>get_whatami\<close> is what \<^verbatim>\<open>self.get_whatami()\<close>
  returns, \<open>refine_tri\<close> and \<open>refine_quad\<close> are the object built from the output of
  \<^verbatim>\<open>subdivide_tri\<close> and \<^verbatim>\<open>subdivide_quad\<close>. The result
  \<open>Inr None\<close> is the return value \<^verbatim>\<open>None\<close>.
\<close>

definition subdivide ::
  "('p Edges \<Rightarrow> string) \<Rightarrow> ('p Edges \<Rightarrow> error + 'p Edges) \<Rightarrow> ('p Edges \<Rightarrow> error + 'p Edges)
     \<Rightarrow> 'p Edges \<Rightarrow> error + 'p Edges option" where
  "subdivide get_whatami refine_tri refine_quad self =
     (if kind self \<noteq> ''face'' then Inl NotImplementedError
      else
        (let whatami = get_whatami self in
         if take 3 whatami = ''tri'' then on_ok (refine_tri self) (\<lambda>s. Inr (Some s))
         else if take 4 whatami = ''quad'' then on_ok (refine_quad self) (\<lambda>s. Inr (Some s))
         else Inr None))"

section \<open>Array primitives of numpy used by edges.py\<close>

text \<open>
  An integer index into an axis of length \<open>n\<close>: numpy counts a negative index from
  the end and raises IndexError outside \<open>[-n, n)\<close>.
\<close>

definition np_index :: "nat \<Rightarrow> int \<Rightarrow> error + nat" where
  "np_index n i =
     (if 0 \<le> i \<and> i < int n then Inr (nat i)
      else if - int n \<le> i \<and> i < 0 then Inr (nat (i + int n))
      else Inl IndexError)"

text \<open>\<^verbatim>\<open>a[idx]\<close> for a one-dimensional and for a two-dimensional integer array \<open>idx\<close>.\<close>

fun np_take :: "'a list \<Rightarrow> int list \<Rightarrow> error + 'a list" where
  "np_take xs [] = Inr []"
| "np_take xs (i # idx) =
     on_ok (np_index (length xs) i) (\<lambda>j. on_ok (np_take xs idx) (\<lambda>r. Inr (xs ! j # r)))"

fun np_take2 :: "'a list \<Rightarrow> int list list \<Rightarrow> error + 'a list list" where
  "np_take2 xs [] = Inr []"
| "np_take2 xs (row # rows) =
     on_ok (np_take xs row) (\<lambda>r. on_ok (np_take2 xs rows) (\<lambda>rs. Inr (r # rs)))"

text \<open>
  \<^verbatim>\<open>a[mask]\<close> for a boolean array \<open>msk\<close>: the entries at the true positions,
  in order; numpy raises IndexError when the lengths differ.
\<close>

definition np_mask :: "'a list \<Rightarrow> bool list \<Rightarrow> error + 'a list" where
  "np_mask xs msk =
     (if length msk \<noteq> length xs then Inl IndexError
      else Inr (map fst (filter snd (zip xs msk))))"

section \<open>Sorted and unique edges\<close>

text \<open>
  Modelled from the spec: the accessor \<^verbatim>\<open>get_edges\<close> that
  \<^verbatim>\<open>sorted_edges\<close> calls is not defined in \<^verbatim>\<open>edges.py\<close>. It stands
  for the connectivity table of the object (section 3), which the \<^verbatim>\<open>edges\<close>
  property returns.
\<close>

definition get_edges :: "'p Edges \<Rightarrow> error + int list list" where
  "get_edges self = edges self"

text \<open>
  \<^verbatim>\<open>sorted_edges\<close> (lines 206-222): a copy of the table with every row sorted
  ascending, assigned to \<^verbatim>\<open>edges_sorted\<close> and returned. The result is the
  updated object and the returned array.
\<close>

definition sorted_edges :: "'p Edges \<Rightarrow> error + ('p Edges \<times> int list list)" where
  "sorted_edges self =
     on_ok (get_edges self)
       (\<lambda>es. Inr (self\<lparr>edges_sorted := Some (map sort es)\<rparr>, map sort es))"

text \<open>
  Modelled from the spec: the accessor \<^verbatim>\<open>get_edges_sorted\<close> that
  \<^verbatim>\<open>get_edges_unique\<close> calls is not defined in \<^verbatim>\<open>edges.py\<close>. It
  stands for the sorted connectivity of section 3, "a copy of the connectivity table with
  each row's indices sorted ascending", which \<^verbatim>\<open>sorted_edges\<close> computes.
\<close>

definition get_edges_sorted :: "'p Edges \<Rightarrow> error + ('p Edges \<times> int list list)" where
  "get_edges_sorted self = sorted_edges self"

text \<open>
  Modelled from the spec: \<^verbatim>\<open>utils.arr.unique_rows\<close> is not in
  \<^verbatim>\<open>src/\<close>. Section 6 of the specification: "given a 2D integer row array,
  returns (unique rows in first-occurrence order, first-occurrence index per group,
  inverse mapping from original row to group, per-group occurrence count)".
\<close>

fun first_occurrences :: "'a list \<Rightarrow> 'a list" where
  "first_occurrences [] = []"
| "first_occurrences (x # xs) = x # first_occurrences (filter (\<lambda>y. y \<noteq> x) xs)"

fun first_index :: "'a list \<Rightarrow> 'a \<Rightarrow> nat" where
  "first_index [] y = 0"
| "first_index (x # xs) y = (if x = y then 0 else Suc (first_index xs y))"

definition unique_rows ::
  "int list list \<Rightarrow> int list list \<times> int list \<times> int list \<times> int list" where
  "unique_rows rows =
     (let u = first_occurrences rows in
      (u,
       map (\<lambda>r. int (first_index rows r)) u,
       map (\<lambda>r. int (first_index u r)) rows,
       map (\<lambda>r. int (count_list rows r)) u))"

text \<open>
  \<^verbatim>\<open>get_edges_unique\<close> (lines 224-253): the unique rows are taken from
  \<^verbatim>\<open>edges\<close> at the first-occurrence indices of the groups of the sorted table;
  the outlines are the first-occurrence indices of the groups that occur once.
\<close>

definition get_edges_unique :: "'p Edges \<Rightarrow> error + ('p Edges \<times> int list list)" where
  "get_edges_unique self =
     on_ok (get_edges_sorted self) (\<lambda>(self1, srt).
       (case unique_rows srt of (u, uid, uinv, ucount) \<Rightarrow>
          on_ok (edges self1) (\<lambda>es.
          on_ok (np_take es uid) (\<lambda>eu.
          on_ok (np_mask uid (map (\<lambda>c. c = 1) ucount)) (\<lambda>outl.
            Inr (self1\<lparr>edges_unique_id := Some uid,
                        edges_unique := Some eu,
                        edges_unique_inverse := Some uinv,
                        edges_unique_count := Some ucount,
                        outlines := Some outl\<rparr>, eu))))))"

definition get_edges_unique_id :: "'p Edges \<Rightarrow> error + ('p Edges \<times> int list)" where
  "get_edges_unique_id self =
     on_ok (get_edges_unique self) (\<lambda>(s, _).
       (case edges_unique_id s of None \<Rightarrow> Inl AttributeError | Some r \<Rightarrow> Inr (s, r)))"

definition get_edges_unique_inverse :: "'p Edges \<Rightarrow> error + ('p Edges \<times> int list)" where
  "get_edges_unique_inverse self =
     on_ok (get_edges_unique self) (\<lambda>(s, _).
       (case edges_unique_inverse s of None \<Rightarrow> Inl AttributeError | Some r \<Rightarrow> Inr (s, r)))"

definition get_outlines :: "'p Edges \<Rightarrow> error + ('p Edges \<times> int list)" where
  "get_outlines self =
     on_ok (get_edges_unique self) (\<lambda>(s, _).
       (case outlines s of None \<Rightarrow> Inl AttributeError | Some r \<Rightarrow> Inr (s, r)))"

section \<open>Referenced vertices and their removal\<close>

text \<open>
  \<^verbatim>\<open>a[idx] = v\<close> for an integer index array \<open>idx\<close> (given flattened) and a
  scalar \<open>v\<close>, and \<^verbatim>\<open>a[msk] = vs\<close> for a boolean array \<open>msk\<close>: the
  values go to the true positions in order, a single value to all of them. numpy raises
  IndexError for an index out of range or a mask of another length, and ValueError when
  several values are given and their number is not the number of true positions.
\<close>

fun np_put :: "'a list \<Rightarrow> int list \<Rightarrow> 'a \<Rightarrow> error + 'a list" where
  "np_put xs [] v = Inr xs"
| "np_put xs (i # idx) v = on_ok (np_index (length xs) i) (\<lambda>j. np_put (xs[j := v]) idx v)"

fun put_mask :: "'a list \<Rightarrow> bool list \<Rightarrow> 'a list \<Rightarrow> 'a list" where
  "put_mask (x # xs) (True # bs) (v # vs) = v # put_mask xs bs vs"
| "put_mask (x # xs) (False # bs) vs = x # put_mask xs bs vs"
| "put_mask xs bs vs = xs"

definition np_put_mask :: "'a list \<Rightarrow> bool list \<Rightarrow> 'a list \<Rightarrow> error + 'a list" where
  "np_put_mask xs msk vs =
     (if length msk \<noteq> length xs then Inl IndexError
      else if length vs = length (filter (\<lambda>b. b) msk) then Inr (put_mask xs msk vs)
      else if length vs = 1
        then Inr (put_mask xs msk (replicate (length (filter (\<lambda>b. b) msk)) (hd vs)))
      else Inl ValueError)"

text \<open>
  \<^verbatim>\<open>referenced_vertices\<close> (lines 164-180): an all-false array with one entry
  per vertex, set to true at every index that occurs in the elements.
\<close>

definition referenced_vertices :: "'p Edges \<Rightarrow> error + bool list" where
  "referenced_vertices self =
     on_ok (const_elements self) (\<lambda>els.
       np_put (replicate (length (vertices self)) False) (concat els) True)"

text \<open>
  Modelled from the spec: \<^verbatim>\<open>update_vertices\<close> belongs to the class
  \<^verbatim>\<open>Vertices\<close>, which is not in \<^verbatim>\<open>src/\<close>. Section 6 of the
  specification: a "rebuild from a vertex mask plus index-remap" operation; section 4.2:
  the result is "a new object whose point cloud contains only referenced points (in
  original relative order) and whose connectivity rows are remapped through the
  compaction map". The new object is built by the constructor of the class.
\<close>

definition update_vertices :: "'p Edges \<Rightarrow> bool list \<Rightarrow> int list \<Rightarrow> error + 'p Edges" where
  "update_vertices self msk index_map =
     on_ok (np_mask (vertices self) msk) (\<lambda>vs.
     on_ok (const_elements self) (\<lambda>els.
     on_ok (np_take2 index_map els) (\<lambda>new_els.
       Edges_init vs None (Some new_els))))"

text \<open>
  \<^verbatim>\<open>remove_unreferenced_vertices\<close> (lines 182-203): the compaction map is an
  array of zeros that receives \<open>0, 1, 2, \<dots>\<close> at the referenced positions.
\<close>

definition remove_unreferenced_vertices :: "'p Edges \<Rightarrow> error + 'p Edges" where
  "remove_unreferenced_vertices self =
     on_ok (referenced_vertices self) (\<lambda>referenced.
     on_ok (np_put_mask (replicate (length (vertices self)) 0) referenced
              (map int [0..<length (filter (\<lambda>b. b) referenced)])) (\<lambda>index_map.
       update_vertices self referenced index_map))"

section \<open>update_elements\<close>

text \<open>
  A call that passes keyword arguments to a function: Python raises TypeError, before
  the body runs, when a keyword is not a parameter of the function.
\<close>

definition call_with_keywords :: "string list \<Rightarrow> string list \<Rightarrow> error + 'a \<Rightarrow> error + 'a" where
  "call_with_keywords params given body =
     (if list_all (\<lambda>k. k \<in> set params) given then body else Inl TypeError)"

text \<open>
  \<^verbatim>\<open>update_elements\<close> (lines 308-332). \<^verbatim>\<open>elements\<close> is a property
  (lines 83-105), so \<^verbatim>\<open>self.elements()\<close> and
  \<^verbatim>\<open>self.elements(new_elements)\<close> read the property and then call the array it
  returns. \<^verbatim>\<open>remove_unreferenced_vertices\<close> is defined with the single
  parameter \<^verbatim>\<open>self\<close> (line 182) and is called here with the keyword
  \<^verbatim>\<open>inplace\<close>. The result is the receiver after the call and the value
  returned, \<open>None\<close> for Python's \<^verbatim>\<open>None\<close>.
\<close>

definition update_elements ::
  "'p Edges \<Rightarrow> bool list \<Rightarrow> bool \<Rightarrow> error + ('p Edges \<times> 'p Edges option)" where
  "update_elements self msk inplace =
     on_ok (elements self) (\<lambda>a.
     on_ok (tracked_array_call a) (\<lambda>els.
     on_ok (np_mask els msk) (\<lambda>new_elements.
       if inplace then
         on_ok (elements self) (\<lambda>a'.
         on_ok (tracked_array_call a' :: error + 'p Edges) (\<lambda>obj.
         on_ok (call_with_keywords [] [''inplace''] (remove_unreferenced_vertices obj)) (\<lambda>_.
           Inr (self, None))))
       else
         on_ok (Edges_init (vertices self) None (Some new_elements)) (\<lambda>obj.
         on_ok (call_with_keywords [] [''inplace''] (remove_unreferenced_vertices obj)) (\<lambda>r.
           Inr (self, Some r))))))"

definition update_edges ::
  "'p Edges \<Rightarrow> bool list \<Rightarrow> bool \<Rightarrow> error + ('p Edges \<times> 'p Edges option)" where
  "update_edges self msk inplace = update_elements self msk inplace"

section \<open>Centers and shrink\<close>

text \<open>
  Coordinates are real numbers in this model: the operations on points are the exact
  ones, and the rounding of the floating-point operations is not modelled. A point is the
  list of its coordinates.
\<close>

definition vadd :: "real list \<Rightarrow> real list \<Rightarrow> real list" where
  "vadd u v = map2 (+) u v"

definition vsub :: "real list \<Rightarrow> real list \<Rightarrow> real list" where
  "vsub u v = map2 (-) u v"

definition vscale :: "real \<Rightarrow> real list \<Rightarrow> real list" where
  "vscale c v = map (\<lambda>x. x * c) v"

text \<open>\<^verbatim>\<open>mean(axis=1)\<close> of one row of points: the mean of each coordinate.\<close>

definition mean_points :: "real list list \<Rightarrow> real list" where
  "mean_points pts = map (\<lambda>col. sum_list col / real (length pts)) (transpose pts)"

text \<open>\<^verbatim>\<open>centers\<close> (lines 147-162).\<close>

definition centers :: "real list Edges \<Rightarrow> error + real list list" where
  "centers self =
     on_ok (const_elements self) (\<lambda>els.
     on_ok (np_take2 (vertices self) els) (\<lambda>pts. Inr (map mean_points pts)))"

text \<open>
  Modelled from the spec: the accessor \<^verbatim>\<open>get_centers\<close> that
  \<^verbatim>\<open>shrink\<close> calls is not defined in \<^verbatim>\<open>edges.py\<close>. It stands for
  the centers of section 3, "one point per row = mean of that row's referenced points",
  which \<^verbatim>\<open>centers\<close> computes.
\<close>

definition get_centers :: "real list Edges \<Rightarrow> error + real list list" where
  "get_centers self = centers self"

text \<open>
  \<^verbatim>\<open>np.vstack\<close> of a sequence of arrays raises ValueError on the empty
  sequence; \<^verbatim>\<open>reshape(-1, k)\<close> raises ValueError when the rows cannot be formed.
\<close>

definition np_vstack :: "'a list list \<Rightarrow> error + 'a list" where
  "np_vstack xss = (if xss = [] then Inl ValueError else Inr (concat xss))"

definition np_reshape :: "'a list \<Rightarrow> nat \<Rightarrow> error + 'a list list" where
  "np_reshape xs k =
     (if k = 0 \<or> length xs mod k \<noteq> 0 then Inl ValueError
      else Inr (map (\<lambda>i. take k (drop (i * k) xs)) [0..<length xs div k]))"

text \<open>
  \<^verbatim>\<open>shrink\<close> (lines 423-452). Its first statement,
  \<^verbatim>\<open>elements = self.elements()\<close>, reads the property \<^verbatim>\<open>elements\<close>
  and calls the array it returns. \<open>shrink_elements\<close> is the rest of the body
  (lines 440-452) for a given table \<open>els\<close>: the points of every element are
  gathered and numbered consecutively, and each is moved towards the center of its
  element. The copying of \<^verbatim>\<open>vertexdata\<close> and \<^verbatim>\<open>vis_dict\<close>
  (lines 454-460), attributes of the base class, is left out.
\<close>

definition shrink_elements ::
  "real list Edges \<Rightarrow> int list list \<Rightarrow> real \<Rightarrow> error + real list Edges" where
  "shrink_elements self els ratio =
     on_ok (np_take2 (vertices self) els) (\<lambda>pts.
     on_ok (np_vstack pts) (\<lambda>vs.
     on_ok (np_reshape (map int [0..<length vs]) (length (hd els))) (\<lambda>es.
     on_ok (get_centers self) (\<lambda>cs.
       (let mids = concat (map (replicate (length (hd els))) cs);
            vs1 = map2 vsub vs mids;
            vs2 = map (vscale ratio) vs1;
            vs3 = map2 vadd vs2 mids
        in Edges_init vs3 None (Some es))))))"

definition shrink :: "real list Edges \<Rightarrow> real \<Rightarrow> error + real list Edges" where
  "shrink self ratio =
     on_ok (elements self) (\<lambda>a.
     on_ok (tracked_array_call a) (\<lambda>els.
       shrink_elements self els ratio))"

section \<open>dashed\<close>

text \<open>
  \<^verbatim>\<open>dashed\<close> (lines 372-421) chooses the number of points of an edge at line
  401 from 64-bit floating-point values: the length of the edge is a rounded norm,
  \<^verbatim>\<open>spacing * 1.5\<close> is rounded before the floor division, and the result is
  cast to a 32-bit integer. Exact real arithmetic does not reproduce these roundings: for
  the length 0.44999999999999996 and the spacing 0.3 the rounded product equals the
  length and the floor division gives 1, where the exact quotient is below 1. The method
  is therefore not embedded.
\<close>

section \<open>Basic facts\<close>

lemma on_ok_Inl [simp]: "on_ok (Inl e) f = Inl e"
  by (simp add: on_ok_def)

lemma on_ok_Inr [simp]: "on_ok (Inr x) f = f x"
  by (simp add: on_ok_def)

lemma edges_setter_eq:
  "edges_setter self es = Inr (self\<lparr>priv_edges := Some es, priv_const_edges := Some es\<rparr>)"
  by (simp add: edges_setter_def make_tracked_array_def)

lemma kind_new_Edges [simp]: "kind (new_Edges vs) = ''edge''"
  by (simp add: new_Edges_def)

lemma Edges_init_Some:
  "Edges_init vs (Some es) els =
     Inr ((new_Edges vs)\<lparr>priv_edges := Some es, priv_const_edges := Some es\<rparr>)"
  by (simp add: Edges_init_def edges_setter_eq)

lemma Edges_init_elements:
  "Edges_init vs None (Some es) =
     Inr ((new_Edges vs)\<lparr>priv_edges := Some es, priv_const_edges := Some es\<rparr>)"
  by (simp add: Edges_init_def edges_setter_eq)

lemma Edges_init_None: "Edges_init vs None None = Inr (new_Edges vs)"
  by (simp add: Edges_init_def)

section \<open>The edges setter and shape errors\<close>

text \<open>
  C5, as stated: the setter fails with ShapeError for every table whose row width is not
  2 and leaves the receiver unmodified. The setter of \<^verbatim>\<open>edges.py\<close> has no
  shape check: a table with one row of width 3 is stored.
\<close>

theorem edges_setter_ShapeError_counterexample:
  "edges_setter (new_Edges [[0::real, 0], [1, 0], [0, 1]]) [[0, 1, 2]] \<noteq> Inl ShapeError
   \<and> edges_setter (new_Edges [[0::real, 0], [1, 0], [0, 1]]) [[0, 1, 2]]
       = Inr ((new_Edges [[0, 0], [1, 0], [0, 1]])
                \<lparr>priv_edges := Some [[0, 1, 2]], priv_const_edges := Some [[0, 1, 2]]\<rparr>)
   \<and> length ([0, 1, 2] :: int list) \<noteq> 2"
  by (simp add: edges_setter_def make_tracked_array_def)

text \<open>
  C5, amended: the setter checks no shape and raises no ShapeError. For every table, of
  any row width, it succeeds, and afterwards the \<^verbatim>\<open>edges\<close> property and the
  read-only alias both return the table that was passed.
\<close>

theorem edges_setter_stores_any_shape:
  "\<exists>s. edges_setter self es = Inr s \<and> edges s = Inr es \<and> const_elements s = Inr es
       \<and> vertices s = vertices self \<and> kind s = kind self"
  by (simp add: edges_setter_eq edges_def const_elements_def)

section \<open>subdivide on objects that are not faces\<close>

text \<open>
  C8: \<^verbatim>\<open>subdivide()\<close> on an object whose kind is not \<^verbatim>\<open>"face"\<close>
  raises NotImplementedError and returns no value, whatever the refinement kernels are;
  every object built by the constructor of \<^verbatim>\<open>Edges\<close> has the kind
  \<^verbatim>\<open>"edge"\<close>, so \<^verbatim>\<open>subdivide()\<close> raises on it.
\<close>

theorem subdivide_not_face:
  "(kind self \<noteq> ''face'' \<longrightarrow>
      subdivide get_whatami refine_tri refine_quad self = Inl NotImplementedError)
   \<and> (Edges_init vs edges_arg elements_arg = Inr obj \<longrightarrow>
      kind obj = ''edge''
      \<and> subdivide get_whatami refine_tri refine_quad obj = Inl NotImplementedError)"
proof (intro conjI impI)
  assume "kind self \<noteq> ''face''"
  then show "subdivide get_whatami refine_tri refine_quad self = Inl NotImplementedError"
    by (simp add: subdivide_def)
next
  assume init: "Edges_init vs edges_arg elements_arg = Inr obj"
  then show k: "kind obj = ''edge''"
    by (cases edges_arg; cases elements_arg)
       (auto simp: Edges_init_Some Edges_init_elements Edges_init_None)
  then show "subdivide get_whatami refine_tri refine_quad obj = Inl NotImplementedError"
    by (simp add: subdivide_def)
qed

theorem subdivide_not_face_witness:
  "kind ((new_Edges [[0::real, 0], [1, 0]])\<lparr>priv_edges := Some [[0, 1]],
          priv_const_edges := Some [[0, 1]]\<rparr>) \<noteq> ''face''
   \<and> Edges_init [[0::real, 0], [1, 0]] (Some [[0, 1]]) None
       = Inr ((new_Edges [[0, 0], [1, 0]])\<lparr>priv_edges := Some [[0, 1]],
               priv_const_edges := Some [[0, 1]]\<rparr>)
   \<and> subdivide (\<lambda>s. ''tri'') Inr Inr
       ((new_Edges [[0::real, 0], [1, 0]])\<lparr>priv_edges := Some [[0, 1]],
          priv_const_edges := Some [[0, 1]]\<rparr>) = Inl NotImplementedError"
  using subdivide_not_face
    [of "(new_Edges [[0::real, 0], [1, 0]])\<lparr>priv_edges := Some [[0, 1]],
          priv_const_edges := Some [[0, 1]]\<rparr>" "\<lambda>s. ''tri''" Inr Inr
        "[[0::real, 0], [1, 0]]" "Some [[0, 1]]" None]
  by (simp add: Edges_init_Some)

section \<open>The constructor's arguments\<close>

text \<open>
  C10: in the constructor the argument \<^verbatim>\<open>edges\<close> takes precedence over
  \<^verbatim>\<open>elements\<close>: when both are given the connectivity is the one of
  \<^verbatim>\<open>edges\<close> and \<^verbatim>\<open>elements\<close> is ignored; passing a table as
  \<^verbatim>\<open>edges\<close> or as \<^verbatim>\<open>elements\<close> builds the same object; when both
  are None no connectivity is stored and reading the \<^verbatim>\<open>edges\<close> property
  raises.
\<close>

theorem Edges_init_precedence:
  "Edges_init vs (Some es) (Some els) = Edges_init vs (Some es) None
   \<and> (\<exists>s. Edges_init vs (Some es) (Some els) = Inr s \<and> edges s = Inr es \<and> vertices s = vs)
   \<and> Edges_init vs (Some es) None = Edges_init vs None (Some es)
   \<and> (\<exists>s. Edges_init vs None None = Inr s \<and> priv_edges s = None
          \<and> edges s = Inl AttributeError \<and> vertices s = vs)"
  by (simp add: Edges_init_Some Edges_init_elements Edges_init_None edges_def new_Edges_def)

section \<open>Unique edges, inverse and outlines\<close>

lemma set_first_occurrences [simp]: "set (first_occurrences xs) = set xs"
  by (induction xs rule: first_occurrences.induct) auto

lemma first_index_less: "x \<in> set xs \<Longrightarrow> first_index xs x < length xs"
  by (induction xs) auto

lemma nth_first_index: "x \<in> set xs \<Longrightarrow> xs ! first_index xs x = x"
  by (induction xs) auto

lemma first_index_unique:
  "count_list xs x = 1 \<Longrightarrow> i < length xs \<Longrightarrow> xs ! i = x \<Longrightarrow> first_index xs x = i"
proof (induction xs arbitrary: i)
  case Nil
  then show ?case by simp
next
  case (Cons a xs)
  show ?case
  proof (cases "a = x")
    case True
    with Cons.prems(1) have "count_list xs x = 0" by simp
    then have notin: "x \<notin> set xs" by (simp add: count_list_0_iff)
    have "i = 0"
    proof (rule ccontr)
      assume "i \<noteq> 0"
      then obtain k where "i = Suc k" by (cases i) auto
      with Cons.prems(2,3) have "xs ! k = x" "k < length xs" by auto
      with notin show False by (metis nth_mem)
    qed
    with True show ?thesis by simp
  next
    case False
    with Cons.prems(3) obtain k where k: "i = Suc k" by (cases i) auto
    with Cons.prems False have "first_index xs x = k" by (intro Cons.IH) auto
    with False k show ?thesis by simp
  qed
qed

lemma np_index_nat: "j < n \<Longrightarrow> np_index n (int j) = Inr j"
  by (simp add: np_index_def)

lemma np_take_nat:
  "(\<And>j. j \<in> set js \<Longrightarrow> j < length xs) \<Longrightarrow> np_take xs (map int js) = Inr (map ((!) xs) js)"
  by (induction js) (simp_all add: np_index_nat)

lemma np_mask_map:
  "np_mask (map f xs) (map p xs) = Inr (map f (filter p xs))"
proof -
  have "map fst (filter snd (zip (map f xs) (map p xs))) = map f (filter p xs)"
    by (induction xs) auto
  then show ?thesis by (simp add: np_mask_def)
qed

lemma get_edges_unique_eq:
  assumes "priv_edges self = Some es"
  defines "srt \<equiv> map sort es"
  defines "u \<equiv> first_occurrences srt"
  shows "get_edges_unique self =
     Inr (self\<lparr>edges_sorted := Some srt,
               edges_unique_id := Some (map (\<lambda>r. int (first_index srt r)) u),
               edges_unique := Some (map (\<lambda>r. es ! first_index srt r) u),
               edges_unique_inverse := Some (map (\<lambda>r. int (first_index u r)) srt),
               edges_unique_count := Some (map (\<lambda>r. int (count_list srt r)) u),
               outlines := Some (map (\<lambda>r. int (first_index srt r))
                                   (filter (\<lambda>r. count_list srt r = 1) u))\<rparr>,
          map (\<lambda>r. es ! first_index srt r) u)"
proof -
  have take: "np_take es (map (\<lambda>r. int (first_index srt r)) u)
                = Inr (map (\<lambda>r. es ! first_index srt r) u)"
  proof -
    have "np_take es (map int (map (first_index srt) u))
            = Inr (map ((!) es) (map (first_index srt) u))"
    proof (rule np_take_nat)
      fix j assume "j \<in> set (map (first_index srt) u)"
      then obtain r where "r \<in> set srt" "j = first_index srt r" by (auto simp: u_def)
      then show "j < length es" using first_index_less [of r srt] by (simp add: srt_def)
    qed
    then show ?thesis by (simp add: comp_def)
  qed
  have msk: "np_mask (map (\<lambda>r. int (first_index srt r)) u)
               (map (\<lambda>c. c = 1) (map (\<lambda>r. int (count_list srt r)) u))
             = Inr (map (\<lambda>r. int (first_index srt r)) (filter (\<lambda>r. count_list srt r = 1) u))"
    using np_mask_map [of "\<lambda>r. int (first_index srt r)" u "\<lambda>r. count_list srt r = 1"]
    by (simp add: comp_def)
  show ?thesis
    using assms(1) take msk
    by (simp add: get_edges_unique_def get_edges_sorted_def sorted_edges_def get_edges_def
        edges_def unique_rows_def Let_def srt_def [symmetric] u_def [symmetric])
qed


lemma get_outlines_eq:
  assumes "priv_edges self = Some es"
  shows "\<exists>s. get_outlines self =
     Inr (s, map (\<lambda>r. int (first_index (map sort es) r))
               (filter (\<lambda>r. count_list (map sort es) r = 1) (first_occurrences (map sort es))))"
  by (simp add: get_outlines_def get_edges_unique_eq [OF assms])

lemma get_edges_unique_inverse_eq:
  assumes "priv_edges self = Some es"
  shows "\<exists>s. get_edges_unique_inverse self =
     Inr (s, map (\<lambda>r. int (first_index (first_occurrences (map sort es)) r)) (map sort es))"
  by (simp add: get_edges_unique_inverse_def get_edges_unique_eq [OF assms])

lemma outline_member:
  assumes "i < length xs"
  shows "(int i \<in> set (map (\<lambda>r. int (first_index xs r))
                         (filter (\<lambda>r. count_list xs r = 1) (first_occurrences xs))))
         = (count_list xs (xs ! i) = 1)"
proof
  assume "int i \<in> set (map (\<lambda>r. int (first_index xs r))
                         (filter (\<lambda>r. count_list xs r = 1) (first_occurrences xs)))"
  then obtain r where r: "r \<in> set xs" "count_list xs r = 1" "i = first_index xs r"
    by auto
  then have "xs ! i = r" by (simp add: nth_first_index)
  with r show "count_list xs (xs ! i) = 1" by simp
next
  assume c: "count_list xs (xs ! i) = 1"
  have "first_index xs (xs ! i) = i" using c assms by (rule first_index_unique) simp
  moreover have "xs ! i \<in> set xs" using assms by simp
  ultimately show "int i \<in> set (map (\<lambda>r. int (first_index xs r))
                         (filter (\<lambda>r. count_list xs r = 1) (first_occurrences xs)))"
    using c by force
qed

lemma outline_range:
  assumes "j \<in> set (map (\<lambda>r. int (first_index xs r))
                         (filter (\<lambda>r. count_list xs r = 1) (first_occurrences xs)))"
  shows "0 \<le> j \<and> j < int (length xs)"
  using assms first_index_less [of _ xs] by auto

lemma outlines_scenario1:
  "\<exists>s. get_outlines ((new_Edges vs)\<lparr>priv_edges := Some [[0, 1], [1, 0], [2, 3]],
                  priv_const_edges := Some [[0, 1], [1, 0], [2, 3]]\<rparr>) = Inr (s, [2])"
  by (simp add: get_outlines_def get_edges_unique_def get_edges_sorted_def
      sorted_edges_def get_edges_def edges_def unique_rows_def np_mask_def np_index_def Let_def)


text \<open>
  Indexing the unique rows with the inverse gives back every row of the table up to the
  order of the indices inside the row.
\<close>

lemma unique_inverse_up_to_order:
  assumes "priv_edges self = Some es" and "i < length es"
  shows "\<exists>s u s' uinv row. get_edges_unique self = Inr (s, u)
           \<and> get_edges_unique_inverse self = Inr (s', uinv)
           \<and> np_take u [uinv ! i] = Inr [row]
           \<and> sort row = sort (es ! i)"
proof -
  define srt where "srt = map sort es"
  define u where "u = first_occurrences srt"
  define eu where "eu = map (\<lambda>r. es ! first_index srt r) u"
  define uinv where "uinv = map (\<lambda>r. int (first_index u r)) srt"
  define r where "r = srt ! i"
  from get_edges_unique_eq [OF assms(1)] obtain s where s: "get_edges_unique self = Inr (s, eu)"
    unfolding eu_def u_def srt_def by blast
  from get_edges_unique_inverse_eq [OF assms(1)] obtain s' where
    s': "get_edges_unique_inverse self = Inr (s', uinv)"
    unfolding uinv_def u_def srt_def by blast
  have i: "i < length srt" using assms(2) by (simp add: srt_def)
  then have rs: "r \<in> set srt" by (simp add: r_def)
  then have r: "r \<in> set u" by (simp add: u_def)
  have k: "first_index u r < length u" using r by (rule first_index_less)
  have j: "first_index srt r < length es" using first_index_less [OF rs] by (simp add: srt_def)
  have "u ! first_index u r = r" using r by (rule nth_first_index)
  then have e: "eu ! first_index u r = es ! first_index srt r" using k by (simp add: eu_def)
  have "srt ! first_index srt r = r" using rs by (rule nth_first_index)
  then have "sort (es ! first_index srt r) = r" using j by (simp add: srt_def)
  moreover have "r = sort (es ! i)" using assms(2) by (simp add: r_def srt_def)
  ultimately have so: "sort (es ! first_index srt r) = sort (es ! i)" by simp
  have "uinv ! i = int (first_index u r)" using i by (simp add: uinv_def r_def)
  moreover have "length eu = length u" by (simp add: eu_def)
  ultimately have "np_take eu [uinv ! i] = Inr [es ! first_index srt r]"
    using k e by (simp add: np_index_nat)
  with s s' so show ?thesis by blast
qed


text \<open>
  C1 at the table \<open>[[0, 1], [1, 0]]\<close>. The two rows have the same sorted form, so
  there is one group; its row is taken from \<^verbatim>\<open>edges\<close> at the first occurrence,
  \<open>[0, 1]\<close>, and the inverse maps both rows to it. Indexing the unique rows with the
  inverse gives \<open>[[0, 1], [0, 1]]\<close>, which differs from the table in its second row,
  against the identity that the docstring of \<^verbatim>\<open>get_edges_unique_inverse\<close>
  states.
\<close>

theorem unique_inverse_reversed_pair:
  "Edges_init [[0::real, 0], [1, 0]] (Some [[0, 1], [1, 0]]) None
     = Inr ((new_Edges [[0, 0], [1, 0]])\<lparr>priv_edges := Some [[0, 1], [1, 0]],
              priv_const_edges := Some [[0, 1], [1, 0]]\<rparr>)
   \<and> (\<exists>s. get_edges_unique ((new_Edges [[0::real, 0], [1, 0]])\<lparr>priv_edges := Some [[0, 1], [1, 0]],
              priv_const_edges := Some [[0, 1], [1, 0]]\<rparr>) = Inr (s, [[0, 1]]))
   \<and> (\<exists>s. get_edges_unique_inverse ((new_Edges [[0::real, 0], [1, 0]])\<lparr>priv_edges := Some [[0, 1], [1, 0]],
              priv_const_edges := Some [[0, 1], [1, 0]]\<rparr>) = Inr (s, [0, 0]))
   \<and> np_take [[0, 1 :: int]] [0, 0] = Inr [[0, 1], [0, 1]]
   \<and> [[0, 1], [0, 1]] ! 1 \<noteq> [[0, 1], [1, 0 :: int]] ! 1"
  by (simp add: Edges_init_Some get_edges_unique_inverse_def get_edges_unique_def
      get_edges_sorted_def sorted_edges_def get_edges_def edges_def unique_rows_def
      np_mask_def np_index_def Let_def)

text \<open>
  C2: a row index is among the outlines if and only if the sorted form of its row occurs
  exactly once among the sorted forms of all rows, and every outline is a row index; for
  the table \<open>[[0, 1], [1, 0], [2, 3]]\<close> the outlines are exactly the index 2 of the
  row \<open>[2, 3]\<close>.
\<close>

theorem get_outlines_iff:
  "(priv_edges self = Some es \<longrightarrow>
      (\<exists>s out. get_outlines self = Inr (s, out)
         \<and> (\<forall>i<length es. (int i \<in> set out) = (count_list (map sort es) (sort (es ! i)) = 1))
         \<and> (\<forall>j\<in>set out. 0 \<le> j \<and> j < int (length es))))
   \<and> (\<exists>s. get_outlines ((new_Edges vs)\<lparr>priv_edges := Some [[0, 1], [1, 0], [2, 3]],
                  priv_const_edges := Some [[0, 1], [1, 0], [2, 3]]\<rparr>) = Inr (s, [2]))"
proof (intro conjI impI)
  assume e: "priv_edges self = Some es"
  let ?srt = "map sort es"
  let ?out = "map (\<lambda>r. int (first_index ?srt r))
               (filter (\<lambda>r. count_list ?srt r = 1) (first_occurrences ?srt))"
  from get_outlines_eq [OF e] obtain s where s: "get_outlines self = Inr (s, ?out)" by blast
  have "\<forall>i<length es. (int i \<in> set ?out) = (count_list ?srt (sort (es ! i)) = 1)"
  proof (intro allI impI)
    fix i assume i: "i < length es"
    then have "(int i \<in> set ?out) = (count_list ?srt (?srt ! i) = 1)"
      using outline_member [of i ?srt] by simp
    with i show "(int i \<in> set ?out) = (count_list ?srt (sort (es ! i)) = 1)" by simp
  qed
  moreover have "\<forall>j\<in>set ?out. 0 \<le> j \<and> j < int (length es)"
    using outline_range [of _ ?srt] by simp
  ultimately show "\<exists>s out. get_outlines self = Inr (s, out)
         \<and> (\<forall>i<length es. (int i \<in> set out) = (count_list (map sort es) (sort (es ! i)) = 1))
         \<and> (\<forall>j\<in>set out. 0 \<le> j \<and> j < int (length es))"
    using s by blast
next
  show "\<exists>s. get_outlines ((new_Edges vs)\<lparr>priv_edges := Some [[0, 1], [1, 0], [2, 3]],
                  priv_const_edges := Some [[0, 1], [1, 0], [2, 3]]\<rparr>) = Inr (s, [2])"
    by (rule outlines_scenario1)
qed

theorem get_outlines_iff_witness:
  "priv_edges ((new_Edges [] :: real list Edges)\<lparr>priv_edges := Some [[1, 0], [4, 2], [0, 1]]\<rparr>)
     = Some [[1, 0], [4, 2], [0, 1]]
   \<and> (\<exists>s out. get_outlines ((new_Edges [] :: real list Edges)\<lparr>priv_edges := Some [[1, 0], [4, 2], [0, 1]]\<rparr>)
         = Inr (s, out) \<and> 1 \<in> set out \<and> 0 \<notin> set out \<and> 2 \<notin> set out)"
proof -
  let ?obj = "(new_Edges [] :: real list Edges)\<lparr>priv_edges := Some [[1, 0], [4, 2], [0, 1]]\<rparr>"
  have e: "priv_edges ?obj = Some [[1, 0], [4, 2], [0, 1]]" by simp
  from get_outlines_iff [of ?obj "[[1, 0], [4, 2], [0, 1]]"] e
  obtain s out where o: "get_outlines ?obj = Inr (s, out)"
    and iff: "\<forall>i<length [[1, 0], [4, 2], [0, 1 :: int]].
       (int i \<in> set out) = (count_list (map sort [[1, 0], [4, 2], [0, 1 :: int]])
            (sort ([[1, 0], [4, 2], [0, 1]] ! i)) = 1)"
    by blast
  from iff [rule_format, of 0] have "0 \<notin> set out" by simp
  moreover from iff [rule_format, of 1] have "1 \<in> set out" by simp
  moreover from iff [rule_format, of 2] have "2 \<notin> set out" by simp
  ultimately show ?thesis using e o by blast
qed

text \<open>
  C3: for a row whose sorted form occurs once among the sorted forms of all rows, the row
  of \<^verbatim>\<open>get_edges_unique()\<close> that \<^verbatim>\<open>get_edges_unique_inverse()\<close>
  assigns to it is the original row, in its original orientation.
\<close>

theorem unique_keeps_orientation:
  assumes "priv_edges self = Some es" and "i < length es"
    and "count_list (map sort es) (sort (es ! i)) = 1"
  shows "\<exists>s u s' uinv. get_edges_unique self = Inr (s, u)
           \<and> get_edges_unique_inverse self = Inr (s', uinv)
           \<and> length uinv = length es
           \<and> np_take u [uinv ! i] = Inr [es ! i]"
proof -
  define srt where "srt = map sort es"
  define u where "u = first_occurrences srt"
  define eu where "eu = map (\<lambda>r. es ! first_index srt r) u"
  define uinv where "uinv = map (\<lambda>r. int (first_index u r)) srt"
  define r where "r = srt ! i"
  from get_edges_unique_eq [OF assms(1)] obtain s where s: "get_edges_unique self = Inr (s, eu)"
    unfolding eu_def u_def srt_def by blast
  from get_edges_unique_inverse_eq [OF assms(1)] obtain s' where
    s': "get_edges_unique_inverse self = Inr (s', uinv)"
    unfolding uinv_def u_def srt_def by blast
  have len: "length uinv = length es" by (simp add: uinv_def srt_def)
  have i: "i < length srt" using assms(2) by (simp add: srt_def)
  have r: "r \<in> set u" using i by (simp add: r_def u_def)
  have k: "first_index u r < length u" using r by (rule first_index_less)
  have "count_list srt r = 1" using assms(2,3) by (simp add: r_def srt_def)
  then have "first_index srt r = i" using i by (rule first_index_unique) (simp add: r_def)
  moreover have "u ! first_index u r = r" using r by (rule nth_first_index)
  ultimately have "eu ! first_index u r = es ! i" using k by (simp add: eu_def)
  moreover have "uinv ! i = int (first_index u r)" using i by (simp add: uinv_def r_def)
  moreover have "length eu = length u" by (simp add: eu_def)
  ultimately have "np_take eu [uinv ! i] = Inr [es ! i]"
    using k by (simp add: np_index_nat)
  with s s' len show ?thesis by blast
qed


theorem unique_keeps_orientation_witness:
  "priv_edges ((new_Edges [] :: real list Edges)\<lparr>priv_edges := Some [[1, 0], [0, 1], [3, 2]]\<rparr>)
     = Some [[1, 0], [0, 1], [3, 2]]
   \<and> 2 < length [[1, 0], [0, 1], [3, 2 :: int]]
   \<and> count_list (map sort [[1, 0], [0, 1], [3, 2 :: int]]) (sort ([[1, 0], [0, 1], [3, 2]] ! 2)) = 1
   \<and> (\<exists>s u s' uinv.
         get_edges_unique ((new_Edges [] :: real list Edges)\<lparr>priv_edges := Some [[1, 0], [0, 1], [3, 2]]\<rparr>)
           = Inr (s, u)
         \<and> get_edges_unique_inverse ((new_Edges [] :: real list Edges)\<lparr>priv_edges := Some [[1, 0], [0, 1], [3, 2]]\<rparr>)
           = Inr (s', uinv)
         \<and> np_take u [uinv ! 2] = Inr [[3, 2]])"
proof -
  let ?obj = "(new_Edges [] :: real list Edges)\<lparr>priv_edges := Some [[1, 0], [0, 1], [3, 2]]\<rparr>"
  have e: "priv_edges ?obj = Some [[1, 0], [0, 1], [3, 2]]" by simp
  have l: "2 < length [[1, 0], [0, 1], [3, 2 :: int]]" by simp
  have c: "count_list (map sort [[1, 0], [0, 1], [3, 2 :: int]]) (sort ([[1, 0], [0, 1], [3, 2]] ! 2)) = 1"
    by simp
  from unique_keeps_orientation [OF e l c] have
    "\<exists>s u s' uinv. get_edges_unique ?obj = Inr (s, u)
         \<and> get_edges_unique_inverse ?obj = Inr (s', uinv)
         \<and> np_take u [uinv ! 2] = Inr [[3, 2]]"
    by simp blast
  with e l c show ?thesis by blast
qed

section \<open>Removing unreferenced vertices twice\<close>

lemma np_index_less: "np_index n i = Inr j \<Longrightarrow> j < n"
  by (auto simp: np_index_def split: if_splits)

lemma length_np_put: "np_put xs idx v = Inr ys \<Longrightarrow> length ys = length xs"
proof (induction idx arbitrary: xs)
  case Nil
  then show ?case by simp
next
  case (Cons i idx)
  then show ?case by (cases "np_index (length xs) i") auto
qed

lemma np_put_valid:
  "np_put xs idx v = Inr ys \<Longrightarrow> i \<in> set idx \<Longrightarrow> \<exists>j. np_index (length xs) i = Inr j"
proof (induction idx arbitrary: xs)
  case Nil
  then show ?case by simp
next
  case (Cons a idx)
  then obtain j where j: "np_index (length xs) a = Inr j"
    by (cases "np_index (length xs) a") auto
  with Cons.prems have "np_put (xs[j := v]) idx v = Inr ys" by simp
  from Cons.IH [OF this] Cons.prems(2) j show ?case by auto
qed

lemma np_put_nth:
  "np_put xs idx v = Inr ys \<Longrightarrow> j < length xs \<Longrightarrow>
     ys ! j = (if \<exists>i\<in>set idx. np_index (length xs) i = Inr j then v else xs ! j)"
proof (induction idx arbitrary: xs)
  case Nil
  then show ?case by simp
next
  case (Cons a idx)
  then obtain k where k: "np_index (length xs) a = Inr k"
    by (cases "np_index (length xs) a") auto
  with Cons.prems have p: "np_put (xs[k := v]) idx v = Inr ys" by simp
  from Cons.IH [OF p] Cons.prems(2)
  have "ys ! j = (if \<exists>i\<in>set idx. np_index (length xs) i = Inr j then v else xs[k := v] ! j)"
    by simp
  with k Cons.prems(2) show ?case by (auto simp: nth_list_update)
qed

lemma np_put_succeeds:
  "(\<And>i. i \<in> set idx \<Longrightarrow> \<exists>j. np_index (length xs) i = Inr j) \<Longrightarrow> \<exists>ys. np_put xs idx v = Inr ys"
proof (induction idx arbitrary: xs)
  case Nil
  then show ?case by simp
next
  case (Cons a idx)
  from Cons.prems [of a] obtain k where k: "np_index (length xs) a = Inr k" by auto
  have "\<exists>ys. np_put (xs[k := v]) idx v = Inr ys"
    using Cons.prems by (intro Cons.IH) simp
  with k show ?case by simp
qed

lemma length_put_mask [simp]: "length (put_mask xs bs vs) = length xs"
  by (induction xs bs vs rule: put_mask.induct) auto

lemma put_mask_nth:
  "length bs = length xs \<Longrightarrow> length vs = length (filter (\<lambda>b. b) bs) \<Longrightarrow> j < length xs \<Longrightarrow>
     put_mask xs bs vs ! j = (if bs ! j then vs ! length (filter (\<lambda>b. b) (take j bs)) else xs ! j)"
proof (induction xs bs vs arbitrary: j rule: put_mask.induct)
  case (1 x xs bs v vs)
  then show ?case by (cases j) auto
next
  case (2 x xs bs vs)
  then show ?case by (cases j) auto
qed auto

lemma np_take_valid:
  "(\<And>i. i \<in> set idx \<Longrightarrow> \<exists>j. np_index (length xs) i = Inr j) \<Longrightarrow>
     np_take xs idx = Inr (map (\<lambda>i. xs ! projr (np_index (length xs) i)) idx)"
proof (induction idx)
  case Nil
  then show ?case by simp
next
  case (Cons a idx)
  from Cons.prems [of a] obtain k where k: "np_index (length xs) a = Inr k" by auto
  have "np_take xs idx = Inr (map (\<lambda>i. xs ! projr (np_index (length xs) i)) idx)"
    using Cons.prems by (intro Cons.IH) simp
  with k show ?case by simp
qed

lemma np_take2_valid:
  "(\<And>i. i \<in> set (concat rows) \<Longrightarrow> \<exists>j. np_index (length xs) i = Inr j) \<Longrightarrow>
     np_take2 xs rows = Inr (map (map (\<lambda>i. xs ! projr (np_index (length xs) i))) rows)"
proof (induction rows)
  case Nil
  then show ?case by simp
next
  case (Cons row rows)
  have "np_take xs row = Inr (map (\<lambda>i. xs ! projr (np_index (length xs) i)) row)"
    using Cons.prems by (intro np_take_valid) simp
  moreover have "np_take2 xs rows = Inr (map (map (\<lambda>i. xs ! projr (np_index (length xs) i))) rows)"
    using Cons.prems by (intro Cons.IH) simp
  ultimately show ?case by simp
qed

lemma rank_less:
  "p < length bs \<Longrightarrow> bs ! p \<Longrightarrow> length (filter (\<lambda>b. b) (take p bs)) < length (filter (\<lambda>b. b) bs)"
proof -
  assume p: "p < length bs" and t: "bs ! p"
  have "bs = take p bs @ bs ! p # drop (Suc p) bs" using p by (rule id_take_nth_drop)
  then have "filter (\<lambda>b. b) bs = filter (\<lambda>b. b) (take p bs) @ filter (\<lambda>b. b) (bs ! p # drop (Suc p) bs)"
    by (metis filter_append)
  with t show ?thesis by simp
qed

lemma rank_exists:
  "j < length (filter P xs) \<Longrightarrow> \<exists>p<length xs. P (xs ! p) \<and> length (filter P (take p xs)) = j"
proof (induction xs rule: rev_induct)
  case Nil
  then show ?case by simp
next
  case (snoc x xs)
  show ?case
  proof (cases "j < length (filter P xs)")
    case True
    from snoc.IH [OF this] obtain p where "p < length xs" "P (xs ! p)"
      "length (filter P (take p xs)) = j" by blast
    then show ?thesis by (intro exI [of _ p]) (simp add: nth_append)
  next
    case False
    with snoc.prems have "P x" "j = length (filter P xs)" by (auto split: if_splits)
    then show ?thesis by (intro exI [of _ "length xs"]) simp
  qed
qed

lemma length_filter_zip_mask:
  "length xs = length bs \<Longrightarrow> length (filter snd (zip xs bs)) = length (filter (\<lambda>b. b) bs)"
  by (induction xs bs rule: list_induct2) auto

lemma np_mask_all: "np_mask xs (replicate (length xs) True) = Inr xs"
proof -
  have "map fst (filter snd (zip xs (replicate (length xs) True))) = xs"
    by (induction xs) auto
  then show ?thesis by (simp add: np_mask_def)
qed

lemma put_mask_all:
  "put_mask (replicate n 0) (replicate n True) (map int [0..<n]) = map int [0..<n]"
  by (rule nth_equalityI) (simp_all add: put_mask_nth)

lemma np_take2_identity:
  assumes "\<And>k. k \<in> set (concat rows) \<Longrightarrow> 0 \<le> k \<and> k < int n"
  shows "np_take2 (map int [0..<n]) rows = Inr rows"
proof -
  have v: "np_index n k = Inr (nat k)" if "k \<in> set (concat rows)" for k
    using assms [OF that] by (simp add: np_index_def)
  have "np_take2 (map int [0..<n]) rows
          = Inr (map (map (\<lambda>i. map int [0..<n] ! projr (np_index (length (map int [0..<n])) i))) rows)"
    using v by (intro np_take2_valid) auto
  also have "map (map (\<lambda>i. map int [0..<n] ! projr (np_index (length (map int [0..<n])) i))) rows
          = map (map (\<lambda>i. i)) rows"
  proof (intro map_cong refl)
    fix row i assume "row \<in> set rows" "i \<in> set row"
    then have i: "i \<in> set (concat rows)" by auto
    from assms [OF i] have "nat i < n" by linarith
    with assms [OF i] v [OF i]
    show "map int [0..<n] ! projr (np_index (length (map int [0..<n])) i) = i" by simp
  qed
  finally show ?thesis by simp
qed


lemma on_ok_eq_Inr: "on_ok r f = Inr y \<Longrightarrow> \<exists>x. r = Inr x \<and> f x = Inr y"
  by (cases r) auto

lemma remove_unreferenced_vertices_Inr:
  assumes "remove_unreferenced_vertices self = Inr s'"
  obtains els ref where
    "priv_const_edges self = Some els"
    "np_put (replicate (length (vertices self)) False) (concat els) True = Inr ref"
    "s' = (new_Edges (map fst (filter snd (zip (vertices self) ref))))
            \<lparr>priv_edges := Some (map (map (\<lambda>i. put_mask (replicate (length (vertices self)) 0) ref
                       (map int [0..<length (filter (\<lambda>b. b) ref)])
                     ! projr (np_index (length (vertices self)) i))) els),
             priv_const_edges := Some (map (map (\<lambda>i. put_mask (replicate (length (vertices self)) 0) ref
                       (map int [0..<length (filter (\<lambda>b. b) ref)])
                     ! projr (np_index (length (vertices self)) i))) els)\<rparr>"
proof -
  let ?n = "length (vertices self)"
  from assms obtain ref where ref: "referenced_vertices self = Inr ref"
    and r1: "on_ok (np_put_mask (replicate ?n 0) ref (map int [0..<length (filter (\<lambda>b. b) ref)]))
               (\<lambda>index_map. update_vertices self ref index_map) = Inr s'"
    unfolding remove_unreferenced_vertices_def by (blast dest: on_ok_eq_Inr)
  from ref obtain els where ce: "const_elements self = Inr els"
    and put: "np_put (replicate ?n False) (concat els) True = Inr ref"
    unfolding referenced_vertices_def by (blast dest: on_ok_eq_Inr)
  from ce have pce: "priv_const_edges self = Some els"
    by (simp add: const_elements_def split: option.splits)
  have len: "length ref = ?n" using length_np_put [OF put] by simp
  let ?imap = "put_mask (replicate ?n 0) ref (map int [0..<length (filter (\<lambda>b. b) ref)])"
  have pm: "np_put_mask (replicate ?n 0) ref (map int [0..<length (filter (\<lambda>b. b) ref)]) = Inr ?imap"
    using len by (simp add: np_put_mask_def)
  have valid: "\<exists>j. np_index (length ?imap) i = Inr j" if "i \<in> set (concat els)" for i
    using np_put_valid [OF put that] by simp
  have take: "np_take2 ?imap els
                = Inr (map (map (\<lambda>i. ?imap ! projr (np_index (length ?imap) i))) els)"
    using valid by (rule np_take2_valid)
  have msk: "np_mask (vertices self) ref = Inr (map fst (filter snd (zip (vertices self) ref)))"
    using len by (simp add: np_mask_def)
  from r1 pm have "update_vertices self ref ?imap = Inr s'" by simp
  then have "s' = (new_Edges (map fst (filter snd (zip (vertices self) ref))))
            \<lparr>priv_edges := Some (map (map (\<lambda>i. ?imap ! projr (np_index ?n i))) els),
             priv_const_edges := Some (map (map (\<lambda>i. ?imap ! projr (np_index ?n i))) els)\<rparr>"
    using msk ce take by (simp add: update_vertices_def Edges_init_elements)
  with pce put show ?thesis by (rule that)
qed

text \<open>
  C9: \<^verbatim>\<open>remove_unreferenced_vertices()\<close> is idempotent. Applying it to its own
  result gives that result again, vertices and connectivity alike; when the first
  application raises (no connectivity, or an index outside the vertex array) there is no
  result to apply it to.
\<close>

theorem remove_unreferenced_vertices_idempotent:
  "on_ok (remove_unreferenced_vertices self) remove_unreferenced_vertices
     = remove_unreferenced_vertices self"
proof (cases "remove_unreferenced_vertices self")
  case (Inl e)
  then show ?thesis by simp
next
  case (Inr s')
  let ?n = "length (vertices self)"
  from Inr obtain els ref where
    pce: "priv_const_edges self = Some els"
    and put: "np_put (replicate ?n False) (concat els) True = Inr ref"
    and s': "s' = (new_Edges (map fst (filter snd (zip (vertices self) ref))))
            \<lparr>priv_edges := Some (map (map (\<lambda>i. put_mask (replicate ?n 0) ref
                       (map int [0..<length (filter (\<lambda>b. b) ref)])
                     ! projr (np_index ?n i))) els),
             priv_const_edges := Some (map (map (\<lambda>i. put_mask (replicate ?n 0) ref
                       (map int [0..<length (filter (\<lambda>b. b) ref)])
                     ! projr (np_index ?n i))) els)\<rparr>"
    by (rule remove_unreferenced_vertices_Inr)
  define c where "c = length (filter (\<lambda>b. b) ref)"
  define imap where "imap = put_mask (replicate ?n 0) ref (map int [0..<c])"
  define vs' where "vs' = map fst (filter snd (zip (vertices self) ref))"
  define els' where "els' = map (map (\<lambda>i. imap ! projr (np_index ?n i))) els"
  have s'_eq: "s' = (new_Edges vs')\<lparr>priv_edges := Some els', priv_const_edges := Some els'\<rparr>"
    using s' by (simp add: vs'_def els'_def imap_def c_def)
  have len: "length ref = ?n" using length_np_put [OF put] by simp
  have len_vs': "length vs' = c"
    using len by (simp add: vs'_def c_def length_filter_zip_mask)
  have hit: "imap ! projr (np_index ?n i) = int (length (filter (\<lambda>b. b) (take (projr (np_index ?n i)) ref)))
             \<and> length (filter (\<lambda>b. b) (take (projr (np_index ?n i)) ref)) < c"
    if i: "i \<in> set (concat els)" for i
  proof -
    from np_put_valid [OF put i] obtain p where p: "np_index ?n i = Inr p" by auto
    then have pn: "p < ?n" by (rule np_index_less)
    have "ref ! p" using np_put_nth [OF put, of p] pn p i by auto
    moreover have "length (filter (\<lambda>b. b) (take p ref)) < c"
      unfolding c_def using pn len \<open>ref ! p\<close> by (intro rank_less) simp_all
    ultimately show ?thesis
      using p pn len by (simp add: imap_def put_mask_nth c_def)
  qed
  have range: "0 \<le> k \<and> k < int c" if "k \<in> set (concat els')" for k
  proof -
    from that obtain i where "i \<in> set (concat els)" "k = imap ! projr (np_index ?n i)"
      by (auto simp: els'_def)
    with hit [of i] show ?thesis by simp
  qed
  have all: "\<exists>k\<in>set (concat els'). np_index c k = Inr j" if j: "j < c" for j
  proof -
    from j obtain p where p: "p < length ref" "ref ! p"
      "length (filter (\<lambda>b. b) (take p ref)) = j"
      unfolding c_def using rank_exists [of j "\<lambda>b. b" ref] by auto
    from p(1,2) len np_put_nth [OF put, of p]
    obtain i where i: "i \<in> set (concat els)" "np_index ?n i = Inr p"
      by (auto split: if_splits)
    from hit [OF i(1)] i(2) p(3) have "imap ! projr (np_index ?n i) = int j" by simp
    moreover have "imap ! projr (np_index ?n i) \<in> set (concat els')"
      using i(1) by (auto simp: els'_def)
    moreover have "np_index c (int j) = Inr j" using j by (simp add: np_index_def)
    ultimately show ?thesis by metis
  qed
  have ref': "np_put (replicate c False) (concat els') True = Inr (replicate c True)"
  proof -
    have "\<exists>ys. np_put (replicate c False) (concat els') True = Inr ys"
    proof (rule np_put_succeeds)
      fix k assume "k \<in> set (concat els')"
      from range [OF this] have "np_index c k = Inr (nat k)" by (simp add: np_index_def)
      then show "\<exists>j. np_index (length (replicate c False)) k = Inr j" by simp
    qed
    then obtain ys where ys: "np_put (replicate c False) (concat els') True = Inr ys" by blast
    have "ys = replicate c True"
    proof (rule nth_equalityI)
      show "length ys = length (replicate c True)" using length_np_put [OF ys] by simp
    next
      fix j assume "j < length ys"
      then have j: "j < c" using length_np_put [OF ys] by simp
      from all [OF j] np_put_nth [OF ys, of j] j show "ys ! j = replicate c True ! j" by simp
    qed
    with ys show ?thesis by simp
  qed
  have "remove_unreferenced_vertices s' = Inr s'"
  proof -
    have v: "vertices s' = vs'" and ce: "const_elements s' = Inr els'"
      by (simp_all add: s'_eq new_Edges_def const_elements_def)
    have r: "referenced_vertices s' = Inr (replicate c True)"
      using ref' by (simp add: referenced_vertices_def v ce len_vs')
    have m: "np_put_mask (replicate c 0) (replicate c True)
               (map int [0..<length (filter (\<lambda>b. b) (replicate c True))]) = Inr (map int [0..<c])"
      by (simp add: np_put_mask_def put_mask_all)
    have t: "np_take2 (map int [0..<c]) els' = Inr els'"
      using range by (rule np_take2_identity)
    have i: "Edges_init vs' None (Some els') = Inr s'"
      by (simp add: Edges_init_elements s'_eq)
    have u: "update_vertices s' (replicate c True) (map int [0..<c]) = Inr s'"
      using np_mask_all [of vs'] t i
      by (simp add: update_vertices_def v ce len_vs')
    show ?thesis
      using r m u by (simp add: remove_unreferenced_vertices_def v len_vs')
  qed
  with Inr show ?thesis by simp
qed


theorem remove_unreferenced_vertices_idempotent_witness:
  "remove_unreferenced_vertices
     ((new_Edges [[0::real, 0], [1, 0], [5, 5], [9, 9]])\<lparr>priv_edges := Some [[3, 1]],
        priv_const_edges := Some [[3, 1]]\<rparr>)
     = Inr ((new_Edges [[1, 0], [9, 9]])\<lparr>priv_edges := Some [[1, 0]],
              priv_const_edges := Some [[1, 0]]\<rparr>)
   \<and> remove_unreferenced_vertices
       ((new_Edges [[1::real, 0], [9, 9]])\<lparr>priv_edges := Some [[1, 0]],
          priv_const_edges := Some [[1, 0]]\<rparr>)
     = Inr ((new_Edges [[1, 0], [9, 9]])\<lparr>priv_edges := Some [[1, 0]],
              priv_const_edges := Some [[1, 0]]\<rparr>)"
proof -
  have first: "remove_unreferenced_vertices
     ((new_Edges [[0::real, 0], [1, 0], [5, 5], [9, 9]])\<lparr>priv_edges := Some [[3, 1]],
        priv_const_edges := Some [[3, 1]]\<rparr>)
     = Inr ((new_Edges [[1, 0], [9, 9]])\<lparr>priv_edges := Some [[1, 0]],
              priv_const_edges := Some [[1, 0]]\<rparr>)"
    by (simp add: remove_unreferenced_vertices_def referenced_vertices_def const_elements_def
        update_vertices_def np_put_mask_def np_mask_def np_index_def Edges_init_elements
        new_Edges_def upt_rec)
  with remove_unreferenced_vertices_idempotent
    [of "(new_Edges [[0::real, 0], [1, 0], [5, 5], [9, 9]])\<lparr>priv_edges := Some [[3, 1]],
        priv_const_edges := Some [[3, 1]]\<rparr>"]
  show ?thesis by simp
qed

section \<open>update_elements and shrink call the elements property\<close>

lemma call_with_keywords_inplace:
  "call_with_keywords [] [''inplace''] body = Inl TypeError"
  by (simp add: call_with_keywords_def)

text \<open>
  C4 on the code: \<^verbatim>\<open>update_elements(mask, inplace=False)\<close> returns no object.
  On an object with connectivity, \<^verbatim>\<open>self.elements()\<close> calls the array that the
  property returns and raises TypeError; without connectivity the property raises
  AttributeError. Past that call, \<^verbatim>\<open>remove_unreferenced_vertices(inplace=False)\<close>
  passes a keyword the method does not have and raises TypeError as well.
\<close>

theorem update_elements_raises:
  "update_elements self msk False
     = Inl (case priv_edges self of None \<Rightarrow> AttributeError | Some a \<Rightarrow> TypeError)
   \<and> call_with_keywords [] [''inplace''] (remove_unreferenced_vertices obj) = Inl TypeError
   \<and> Edges_init [[0::real, 0], [1, 0], [1, 1]] (Some [[0, 1], [1, 2]]) None
       = Inr ((new_Edges [[0, 0], [1, 0], [1, 1]])\<lparr>priv_edges := Some [[0, 1], [1, 2]],
                priv_const_edges := Some [[0, 1], [1, 2]]\<rparr>)
   \<and> update_elements ((new_Edges [[0::real, 0], [1, 0], [1, 1]])\<lparr>priv_edges := Some [[0, 1], [1, 2]],
                priv_const_edges := Some [[0, 1], [1, 2]]\<rparr>) [True, False] False = Inl TypeError"
  by (simp add: update_elements_def elements_def edges_def tracked_array_call_def
      call_with_keywords_def Edges_init_Some split: option.splits)

text \<open>
  The statements of \<^verbatim>\<open>shrink\<close> after the call (lines 440-452), applied to the
  connectivity of the object: for a non-empty table of rows of one positive width with
  indices inside the vertex array, the new points are, element by element, the points
  \<open>(v - M) * ratio + M\<close> with \<open>M\<close> the center of the element, and the new rows
  number them consecutively.
\<close>

lemma map2_replicate:
  "map2 f (map g xs) (replicate (length xs) c) = map (\<lambda>x. f (g x) c) xs"
  by (induction xs) auto

lemma map2_concat_replicate:
  assumes "\<And>row. row \<in> set rows \<Longrightarrow> length row = k"
  shows "map2 f (concat (map (\<lambda>row. map (g row) row) rows))
                (concat (map (\<lambda>row. replicate k (c row)) rows))
           = concat (map (\<lambda>row. map (\<lambda>i. f (g row i) (c row)) row) rows)"
  using assms
proof (induction rows)
  case Nil
  then show ?case by simp
next
  case (Cons row rows)
  have k: "length row = k" using Cons.prems by simp
  have "map2 f (concat (map (\<lambda>row. map (g row) row) rows))
                (concat (map (\<lambda>row. replicate k (c row)) rows))
           = concat (map (\<lambda>row. map (\<lambda>i. f (g row i) (c row)) row) rows)"
    using Cons.prems by (intro Cons.IH) simp
  moreover have "map2 f (map (g row) row) (replicate k (c row)) = map (\<lambda>i. f (g row i) (c row)) row"
    using map2_replicate [of f "g row" row "c row"] k by simp
  ultimately show ?case using k by (simp add: zip_append)
qed

lemma reshape_upt:
  assumes "0 < k"
  shows "np_reshape (map int [0..<m * k]) k = Inr (map (\<lambda>r. map int [r * k..<r * k + k]) [0..<m])"
proof -
  have "take k (drop (r * k) (map int [0..<m * k])) = map int [r * k..<r * k + k]" if "r < m" for r
  proof -
    have "r * k + k \<le> m * k"
      using that by (metis Suc_leI mult_Suc mult_le_mono1 add.commute)
    then show ?thesis by (simp add: take_map drop_map take_upt)
  qed
  then have "map (\<lambda>i. take k (drop (i * k) (map int [0..<m * k]))) [0..<m]
               = map (\<lambda>r. map int [r * k..<r * k + k]) [0..<m]"
    by (intro map_cong refl) simp
  with assms show ?thesis by (simp add: np_reshape_def)
qed

lemma length_concat_rows:
  "(\<And>row. row \<in> set rows \<Longrightarrow> length row = k) \<Longrightarrow> length (concat rows) = length rows * k"
  by (induction rows) auto

lemma np_index_nonneg: "0 \<le> i \<Longrightarrow> i < int n \<Longrightarrow> np_index n i = Inr (nat i)"
  by (simp add: np_index_def)

lemma np_take2_nonneg:
  assumes "\<And>i. i \<in> set (concat rows) \<Longrightarrow> 0 \<le> i \<and> i < int (length xs)"
  shows "np_take2 xs rows = Inr (map (map (\<lambda>i. xs ! nat i)) rows)"
proof -
  have v: "np_index (length xs) i = Inr (nat i)" if "i \<in> set (concat rows)" for i
    using assms [OF that] by (simp add: np_index_nonneg)
  then have "np_take2 xs rows = Inr (map (map (\<lambda>i. xs ! projr (np_index (length xs) i))) rows)"
    by (intro np_take2_valid) blast
  also have "map (map (\<lambda>i. xs ! projr (np_index (length xs) i))) rows
               = map (map (\<lambda>i. xs ! nat i)) rows"
  proof (intro map_cong refl)
    fix row i assume "row \<in> set rows" "i \<in> set row"
    then have "i \<in> set (concat rows)" by auto
    from v [OF this] show "xs ! projr (np_index (length xs) i) = xs ! nat i" by simp
  qed
  finally show ?thesis .
qed

lemma shrink_elements_formula:
  assumes ce: "priv_const_edges self = Some els"
    and ne: "els \<noteq> []"
    and k: "\<And>row. row \<in> set els \<Longrightarrow> length row = k"
    and kpos: "0 < k"
    and valid: "\<And>i. i \<in> set (concat els) \<Longrightarrow> 0 \<le> i \<and> i < int (length (vertices self))"
  shows "shrink_elements self els ratio =
     Inr ((new_Edges
            (concat (map (\<lambda>row. map (\<lambda>i.
                 vadd (vscale ratio (vsub (vertices self ! nat i)
                                         (mean_points (map (\<lambda>j. vertices self ! nat j) row))))
                      (mean_points (map (\<lambda>j. vertices self ! nat j) row))) row) els)))
          \<lparr>priv_edges := Some (map (\<lambda>r. map int [r * k..<r * k + k]) [0..<length els]),
           priv_const_edges := Some (map (\<lambda>r. map int [r * k..<r * k + k]) [0..<length els])\<rparr>)"
proof -
  define V where "V = (\<lambda>i. vertices self ! nat i)"
  define M where "M = (\<lambda>row. mean_points (map V row))"
  have take: "np_take2 (vertices self) els = Inr (map (map V) els)"
    unfolding V_def using valid by (rule np_take2_nonneg)
  have stack: "np_vstack (map (map V) els) = Inr (concat (map (map V) els))"
    using ne by (simp add: np_vstack_def)
  have "length (concat (map (map V) els)) = length (map (map V) els) * k"
    by (rule length_concat_rows) (use k in auto)
  then have len: "length (concat (map (map V) els)) = length els * k" by simp
  have hd: "length (hd els) = k" using ne k by (cases els) auto
  have resh: "np_reshape (map int [0..<length els * k]) k
                = Inr (map (\<lambda>r. map int [r * k..<r * k + k]) [0..<length els])"
    using kpos by (rule reshape_upt)
  have cen: "get_centers self = Inr (map M els)"
    using ce take by (simp add: get_centers_def centers_def const_elements_def M_def comp_def)
  have mids: "concat (map (replicate k) (map M els)) = concat (map (\<lambda>row. replicate k (M row)) els)"
    by (simp add: comp_def)
  have s1: "map2 vsub (concat (map (map V) els)) (concat (map (\<lambda>row. replicate k (M row)) els))
              = concat (map (\<lambda>row. map (\<lambda>i. vsub (V i) (M row)) row) els)"
    using map2_concat_replicate [of els k vsub "\<lambda>row. V" M] k by simp
  have s2: "map (vscale ratio) (concat (map (\<lambda>row. map (\<lambda>i. vsub (V i) (M row)) row) els))
              = concat (map (\<lambda>row. map (\<lambda>i. vscale ratio (vsub (V i) (M row))) row) els)"
    by (simp add: map_concat comp_def)
  have s3: "map2 vadd (concat (map (\<lambda>row. map (\<lambda>i. vscale ratio (vsub (V i) (M row))) row) els))
                      (concat (map (\<lambda>row. replicate k (M row)) els))
              = concat (map (\<lambda>row. map (\<lambda>i. vadd (vscale ratio (vsub (V i) (M row))) (M row)) row) els)"
    using map2_concat_replicate [of els k vadd "\<lambda>row i. vscale ratio (vsub (V i) (M row))" M] k
    by simp
  show ?thesis
    unfolding shrink_elements_def
    by (simp only: take stack len hd resh cen mids s1 s2 s3 on_ok_Inr Let_def Edges_init_elements)
       (simp add: V_def M_def)
qed


text \<open>
  C7 on the code: \<^verbatim>\<open>shrink\<close> returns no object. Its first statement is the
  call \<^verbatim>\<open>self.elements()\<close>, which raises TypeError on an object with
  connectivity and AttributeError on one without, so the shrunk points
  \<open>M + ratio * (v - M)\<close> of the statements after it are never built.
\<close>

theorem shrink_raises:
  "shrink self ratio
     = Inl (case priv_edges self of None \<Rightarrow> AttributeError | Some a \<Rightarrow> TypeError)
   \<and> Edges_init [[0, 0], [2, 0], [2, 2]] (Some [[0, 1], [1, 2]]) None
       = Inr ((new_Edges [[0, 0], [2, 0], [2, 2]])\<lparr>priv_edges := Some [[0, 1], [1, 2]],
                priv_const_edges := Some [[0, 1], [1, 2]]\<rparr>)
   \<and> shrink ((new_Edges [[0, 0], [2, 0], [2, 2]])\<lparr>priv_edges := Some [[0, 1], [1, 2]],
                priv_const_edges := Some [[0, 1], [1, 2]]\<rparr>) 0.5 = Inl TypeError"
  by (simp add: shrink_def elements_def edges_def tracked_array_call_def Edges_init_Some
      split: option.splits)

end
